theory Spec2Isabelle
  imports Main "HOL-Library.AList"
begin

section \<open>File identifiers: \<open>sanitizeFilename\<close> and \<open>validateFileId\<close> (middleware/security.js)\<close>

text \<open>
  JavaScript strings are modelled as \<open>string\<close>. Only the characters \<open>.\<close>, \<open>/\<close> and the
  backslash are inspected by the code below, so the encoding of every other character is
  irrelevant.
\<close>

definition slash :: char where
  "slash = CHR ''/''"

definition backslash :: char where
  "backslash = CHR 0x5C"

definition dot :: char where
  "dot = CHR ''.''"

text \<open>
  Node's \<open>path.basename(p)\<close> on a POSIX host (the documented deployment target is a Linux
  container): trailing slashes are dropped, then the part after the last remaining slash is
  returned. The backslash is an ordinary character there.
\<close>

definition basename :: "string \<Rightarrow> string" where
  "basename p = rev (takeWhile (\<lambda>c. c \<noteq> slash) (dropWhile (\<lambda>c. c = slash) (rev p)))"

text \<open>\<open>s.replace(/\.\./g, '')\<close>: one left-to-right pass deleting non-overlapping pairs of dots.\<close>

fun remove_dotdot :: "string \<Rightarrow> string" where
  "remove_dotdot [] = []"
| "remove_dotdot [c] = [c]"
| "remove_dotdot (c # d # cs) =
     (if c = dot \<and> d = dot then remove_dotdot cs else c # remove_dotdot (d # cs))"

text \<open>\<open>s.replace(/[/\\]/g, '')\<close>: every slash and backslash is deleted.\<close>

definition remove_separators :: "string \<Rightarrow> string" where
  "remove_separators s = filter (\<lambda>c. c \<noteq> slash \<and> c \<noteq> backslash) s"

text \<open>The error codes of the file-system calls.\<close>

datatype errno = ENOENT | EPERM

text \<open>
  The errors the code throws: \<open>Failed to persist metadata\<close>, \<open>Failed to initialize metadata
  store\<close>, \<open>Invalid filename\<close>, the two errors of \<open>fileFilter\<close> with the extension and the MIME
  type they name, and multer's \<open>LIMIT_FILE_SIZE\<close>.
\<close>

datatype error =
    PersistError
  | InitError
  | InvalidFilename
  | ExtensionBlocked string
  | MimeNotAllowed string
  | LimitFileSize

text \<open>\<open>sanitizeFilename\<close> throws \<open>Error('Invalid filename')\<close> on an empty result.\<close>

definition sanitizeFilename :: "string \<Rightarrow> error + string" where
  "sanitizeFilename filename =
     (let sanitized = remove_separators (remove_dotdot (basename filename))
      in if sanitized = [] then Inl InvalidFilename else Inr sanitized)"

text \<open>The substring test used to state the traversal property.\<close>

fun has_dotdot :: "string \<Rightarrow> bool" where
  "has_dotdot (c # d # cs) = ((c = dot \<and> d = dot) \<or> has_dotdot (d # cs))"
| "has_dotdot _ = False"

datatype id_check = InvalidFileId | InvalidFileIdFormat error | PassedOn string

text \<open>
  \<open>validateFileId\<close>: an empty parameter is answered with 400 \<open>Invalid file ID\<close>, a throwing
  sanitizer with 400 \<open>Invalid file ID format\<close>; otherwise the sanitized value replaces
  \<open>req.params.fileId\<close> and the next handler runs.
\<close>

definition validateFileId :: "string \<Rightarrow> id_check" where
  "validateFileId fileId =
     (if fileId = [] then InvalidFileId
      else case sanitizeFilename fileId of
             Inl e \<Rightarrow> InvalidFileIdFormat e
           | Inr s \<Rightarrow> PassedOn s)"


section \<open>Configuration, records and the state of the service\<close>

text \<open>The values of config/config.js that the lifecycle code reads.\<close>

record config =
  maxFileSizeBytes :: nat
  uploadDir :: string
  maxStorageBytes :: nat
  fileRetentionMs :: int
  allowedMimeTypes :: "string list"
  blockedExtensions :: "string list"

text \<open>
  Library functions whose internals play no part below are parameters of the model:
  \<open>path.extname\<close>, \<open>String.prototype.toLowerCase\<close> and \<open>FileType.fromBuffer\<close> (reduced to the
  \<open>mime\<close> field of its result, \<open>None\<close> for \<open>undefined\<close>).
\<close>

record platform =
  extname :: "string \<Rightarrow> string"
  toLowerCase :: "string \<Rightarrow> string"
  fromBuffer :: "string \<Rightarrow> string option"

text \<open>
  The record built by \<open>addFile\<close>. The fields \<open>id\<close> and \<open>size\<close> are written \<open>rec_id\<close> and
  \<open>rec_size\<close>; time stamps are milliseconds since the epoch. Sizes are byte counts, which
  JavaScript numbers hold exactly up to \<open>2^53\<close>; the sums below are taken in that range.
\<close>

record file_record =
  rec_id :: string
  originalName :: string
  filename :: string
  mimeType :: string
  rec_size :: nat
  path :: string
  uploadedAt :: int
  expiresAt :: int

text \<open>The object multer leaves in \<open>req.file\<close>.\<close>

record multer_file =
  f_originalname :: string
  f_mimetype :: string
  f_filename :: string
  f_path :: string
  f_size :: nat

text \<open>The multipart part as it arrives, with the name \<open>generateUniqueFilename\<close> produced for it.\<close>

record incoming =
  in_originalname :: string
  in_mimetype :: string
  in_content :: string
  in_uniquename :: string

text \<open>
  metadata/files.json as \<open>initialize\<close> finds it: absent (\<open>ENOENT\<close>), unreadable or not valid
  JSON, or holding an array of records.
\<close>

datatype meta_file = Missing | Corrupt | Snapshot "file_record list"

text \<open>
  Observable effects, appended to \<open>trace\<close> in program order: every call of \<open>fs.unlink\<close>
  (whether it succeeds or throws) and every \<open>this.metadata.delete\<close> of the store.
\<close>

datatype event = Unlink string | MetaDelete string

text \<open>
  The state the code runs against.
  \<^item> \<open>files\<close>: the regular files on disk, path to contents, in directory order;
  \<^item> \<open>dirs\<close>: the directories that exist;
  \<^item> \<open>locked\<close>: paths whose removal the operating system refuses (\<open>EPERM\<close>);
  \<^item> \<open>meta_file\<close>, \<open>meta_writable\<close>: metadata/files.json and whether writing it succeeds;
  \<^item> \<open>torn_write\<close>: where a failing write fails. \<open>fs.writeFile\<close> opens the file with
    truncation; a write refused at the open leaves the file untouched (\<open>False\<close>), a write
    failing after the open leaves it empty or cut short, which is not valid JSON (\<open>True\<close>);
  \<^item> \<open>metadata\<close>, \<open>initialized\<close>: the fields of the singleton \<open>FileMetadataStore\<close>; the
    JavaScript \<open>Map\<close> is an association list in insertion order;
  \<^item> \<open>trace\<close>: the effects so far.
\<close>

record world =
  files :: "(string \<times> string) list"
  dirs :: "string list"
  locked :: "string list"
  meta_file :: meta_file
  meta_writable :: bool
  torn_write :: bool
  metadata :: "(string \<times> file_record) list"
  initialized :: bool
  trace :: "event list"

subsection \<open>File-system primitives\<close>

text \<open>
  \<open>path.join(dir, name)\<close> for a directory and a plain file name. Multer's disk storage builds
  \<open>req.file.path\<close> with the same call that \<open>cleanupOrphanedFiles\<close> uses, so both name a file of
  the upload directory by the same string; the normalisation \<open>path.join\<close> applies to the
  directory part is left out.
\<close>

definition path_join :: "string \<Rightarrow> string \<Rightarrow> string" where
  "path_join d n = d @ [slash] @ n"

definition exists_file :: "world \<Rightarrow> string \<Rightarrow> bool" where
  "exists_file w p = (map_of (files w) p \<noteq> None)"

definition fs_access :: "string \<Rightarrow> world \<Rightarrow> errno + unit" where
  "fs_access p w = (if exists_file w p then Inr () else Inl ENOENT)"

definition fs_readFile :: "string \<Rightarrow> world \<Rightarrow> errno + string" where
  "fs_readFile p w = (case map_of (files w) p of None \<Rightarrow> Inl ENOENT | Some c \<Rightarrow> Inr c)"

definition fs_unlink :: "string \<Rightarrow> world \<Rightarrow> (errno + unit) \<times> world" where
  "fs_unlink p w =
     (let w1 = w\<lparr>trace := trace w @ [Unlink p]\<rparr>
      in if \<not> exists_file w p then (Inl ENOENT, w1)
         else if p \<in> set (locked w) then (Inl EPERM, w1)
         else (Inr (), w1\<lparr>files := AList.delete p (files w)\<rparr>))"

definition fs_writeFile :: "string \<Rightarrow> string \<Rightarrow> world \<Rightarrow> world" where
  "fs_writeFile p c w = w\<lparr>files := AList.update p c (files w)\<rparr>"

text \<open>The name of \<open>p\<close> inside directory \<open>d\<close>, when \<open>p\<close> lies directly in \<open>d\<close>.\<close>

definition child_name :: "string \<Rightarrow> string \<Rightarrow> string option" where
  "child_name d p =
     (let n = drop (length d + 1) p
      in if take (length d + 1) p = d @ [slash] \<and> n \<noteq> [] \<and> slash \<notin> set n
         then Some n else None)"

definition fs_readdir :: "string \<Rightarrow> world \<Rightarrow> errno + string list" where
  "fs_readdir d w =
     (if d \<in> set (dirs w)
      then Inr (remdups (List.map_filter (child_name d) (map fst (files w))))
      else Inl ENOENT)"

section \<open>The metadata store (models/FileMetadata.js)\<close>

text \<open>
  Every method returns its result or the error it throws, together with the state it
  leaves behind: a thrown error undoes nothing. \<open>initialize\<close> also creates the metadata
  directory, which is not modelled; \<open>persist\<close> either replaces the snapshot file by the
  records in memory or throws, and then the file is as it was or torn, as \<open>torn_write\<close> says.
\<close>

definition initialize :: "world \<Rightarrow> (error + unit) \<times> world" where
  "initialize w =
     (if initialized w then (Inr (), w)
      else case meta_file w of
             Missing \<Rightarrow> (Inr (), w\<lparr>initialized := True\<rparr>)
           | Corrupt \<Rightarrow> (Inl InitError, w)
           | Snapshot records \<Rightarrow>
               (Inr (), w\<lparr>metadata := foldl (\<lambda>m r. AList.update (rec_id r) r m) (metadata w) records,
                          initialized := True\<rparr>))"

definition persist :: "world \<Rightarrow> (error + unit) \<times> world" where
  "persist w =
     (if meta_writable w
      then (Inr (), w\<lparr>meta_file := Snapshot (map snd (metadata w))\<rparr>)
      else (Inl PersistError,
            w\<lparr>meta_file := (if torn_write w then Corrupt else meta_file w)\<rparr>))"

text \<open>The record literal of \<open>addFile\<close>; \<open>now\<close> is \<open>Date.now()\<close>.\<close>

definition new_record :: "config \<Rightarrow> int \<Rightarrow> multer_file \<Rightarrow> file_record" where
  "new_record cfg now fileData =
     \<lparr>rec_id = f_filename fileData,
      originalName = f_originalname fileData,
      filename = f_filename fileData,
      mimeType = f_mimetype fileData,
      rec_size = f_size fileData,
      path = f_path fileData,
      uploadedAt = now,
      expiresAt = now + fileRetentionMs cfg\<rparr>"

definition addFile :: "config \<Rightarrow> int \<Rightarrow> multer_file \<Rightarrow> world \<Rightarrow> (error + file_record) \<times> world" where
  "addFile cfg now fileData w0 =
     (case initialize w0 of
        (Inl e, w) \<Rightarrow> (Inl e, w)
      | (Inr _, w) \<Rightarrow>
          let record = new_record cfg now fileData;
              w1 = w\<lparr>metadata := AList.update (rec_id record) record (metadata w)\<rparr>
          in (case persist w1 of
                (Inl e, w2) \<Rightarrow> (Inl e, w2)
              | (Inr _, w2) \<Rightarrow> (Inr record, w2)))"

definition getFile :: "string \<Rightarrow> world \<Rightarrow> (error + file_record option) \<times> world" where
  "getFile fileId w0 =
     (case initialize w0 of
        (Inl e, w) \<Rightarrow> (Inl e, w)
      | (Inr _, w) \<Rightarrow> (Inr (map_of (metadata w) fileId), w))"

definition getAllFiles :: "world \<Rightarrow> (error + file_record list) \<times> world" where
  "getAllFiles w0 =
     (case initialize w0 of
        (Inl e, w) \<Rightarrow> (Inl e, w)
      | (Inr _, w) \<Rightarrow> (Inr (map snd (metadata w)), w))"

definition deleteFile :: "string \<Rightarrow> world \<Rightarrow> (error + file_record option) \<times> world" where
  "deleteFile fileId w0 =
     (case initialize w0 of
        (Inl e, w) \<Rightarrow> (Inl e, w)
      | (Inr _, w) \<Rightarrow>
          (case map_of (metadata w) fileId of
             None \<Rightarrow> (Inr None, w)
           | Some record \<Rightarrow>
               let w1 = w\<lparr>metadata := AList.delete fileId (metadata w),
                          trace := trace w @ [MetaDelete fileId]\<rparr>
               in (case persist w1 of
                     (Inl e, w2) \<Rightarrow> (Inl e, w2)
                   | (Inr _, w2) \<Rightarrow> (Inr (Some record), w2))))"

definition getExpiredFiles :: "int \<Rightarrow> world \<Rightarrow> (error + file_record list) \<times> world" where
  "getExpiredFiles now w0 =
     (case initialize w0 of
        (Inl e, w) \<Rightarrow> (Inl e, w)
      | (Inr _, w) \<Rightarrow> (Inr (filter (\<lambda>record. expiresAt record \<le> now) (map snd (metadata w))), w))"

definition getTotalStorageUsed :: "world \<Rightarrow> (error + nat) \<times> world" where
  "getTotalStorageUsed w0 =
     (case initialize w0 of
        (Inl e, w) \<Rightarrow> (Inl e, w)
      | (Inr _, w) \<Rightarrow> (Inr (foldl (\<lambda>total record. total + rec_size record) 0 (map snd (metadata w))), w))"

definition cleanOrphanedMetadata :: "world \<Rightarrow> (error + nat) \<times> world" where
  "cleanOrphanedMetadata w0 =
     (case initialize w0 of
        (Inl e, w) \<Rightarrow> (Inl e, w)
      | (Inr _, w) \<Rightarrow>
          let orphaned = map rec_id (filter (\<lambda>record. fs_access (path record) w \<noteq> Inr ())
                                            (map snd (metadata w)));
              w1 = w\<lparr>metadata := foldl (\<lambda>m i. AList.delete i m) (metadata w) orphaned,
                     trace := trace w @ map MetaDelete orphaned\<rparr>
          in if orphaned \<noteq> []
             then (case persist w1 of
                     (Inl e, w2) \<Rightarrow> (Inl e, w2)
                   | (Inr _, w2) \<Rightarrow> (Inr (length orphaned), w2))
             else (Inr (length orphaned), w1))"

section \<open>Upload middleware (config/multer.js, middleware/security.js)\<close>

text \<open>
  What a request is answered with: 201 with the record; 400 \<open>No file uploaded\<close>; 400
  \<open>File MIME type mismatch detected\<close> with the claimed and the actual type; 400
  \<open>Actual file type ... is not allowed\<close>; 500 \<open>Failed to validate file type\<close>; 507
  \<open>Storage limit exceeded\<close>; 500 \<open>Failed to check storage limit\<close>. \<open>Handled e\<close> stands for
  \<open>next(e)\<close>: the error reaches the central error handler, which answers 400 for the two
  \<open>fileFilter\<close> errors, 413 for \<open>LIMIT_FILE_SIZE\<close> and 500 for the rest.
\<close>

datatype response =
    Created file_record
  | NoFileUploaded
  | MimeMismatch string string
  | ActualTypeNotAllowed string
  | ValidateFailed
  | StorageLimitExceeded
  | StorageCheckFailed
  | Handled error

definition fileFilter :: "config \<Rightarrow> platform \<Rightarrow> incoming \<Rightarrow> error option" where
  "fileFilter cfg plat file =
     (let ext = toLowerCase plat (extname plat (in_originalname file))
      in if ext \<in> set (blockedExtensions cfg) then Some (ExtensionBlocked ext)
         else if in_mimetype file \<notin> set (allowedMimeTypes cfg)
              then Some (MimeNotAllowed (in_mimetype file))
         else None)"

definition ensureUploadDir :: "config \<Rightarrow> world \<Rightarrow> world" where
  "ensureUploadDir cfg w =
     (if uploadDir cfg \<in> set (dirs w) then w else w\<lparr>dirs := uploadDir cfg # dirs w\<rparr>)"

text \<open>
  \<open>upload.single('file')\<close> as configured in config/multer.js. Multer calls \<open>fileFilter\<close> before
  it opens the destination and writes the part under \<open>destination/filename\<close>. Its parser
  stops a part as soon as the bytes received reach \<open>limits.fileSize\<close>: a part of exactly that
  size is already over the limit; multer then removes what it wrote and reports
  \<open>LIMIT_FILE_SIZE\<close>. A request without a file part leaves \<open>req.file\<close> undefined.
\<close>

definition upload_single ::
  "config \<Rightarrow> platform \<Rightarrow> incoming option \<Rightarrow> world \<Rightarrow> (error + multer_file option) \<times> world" where
  "upload_single cfg plat part w =
     (case part of
        None \<Rightarrow> (Inr None, w)
      | Some file \<Rightarrow>
          (case fileFilter cfg plat file of
             Some e \<Rightarrow> (Inl e, w)
           | None \<Rightarrow>
               let w1 = ensureUploadDir cfg w;
                   p = path_join (uploadDir cfg) (in_uniquename file)
               in if length (in_content file) \<ge> maxFileSizeBytes cfg
                  then (Inl LimitFileSize, w1)
                  else (Inr (Some \<lparr>f_originalname = in_originalname file,
                                   f_mimetype = in_mimetype file,
                                   f_filename = in_uniquename file,
                                   f_path = p,
                                   f_size = length (in_content file)\<rparr>),
                        fs_writeFile p (in_content file) w1)))"

text \<open>A middleware returns \<open>Some\<close> response when it answers itself and \<open>None\<close> when it calls \<open>next()\<close>.\<close>

definition checkStorageLimit :: "config \<Rightarrow> multer_file option \<Rightarrow> world \<Rightarrow> response option \<times> world" where
  "checkStorageLimit cfg file w0 =
     (case getTotalStorageUsed w0 of
        (Inl e, w) \<Rightarrow> (Some StorageCheckFailed, w)
      | (Inr currentUsage, w) \<Rightarrow>
          let incomingSize = (case file of None \<Rightarrow> 0 | Some f \<Rightarrow> f_size f)
          in if currentUsage + incomingSize > maxStorageBytes cfg
             then (case file of
                     None \<Rightarrow> (Some StorageLimitExceeded, w)
                   | Some f \<Rightarrow>
                       (case fs_unlink (f_path f) w of
                          (Inl e, w1) \<Rightarrow> (Some StorageCheckFailed, w1)
                        | (Inr _, w1) \<Rightarrow> (Some StorageLimitExceeded, w1)))
             else (None, w))"

text \<open>The \<open>catch\<close> block of \<open>validateFileMimeType\<close>: unlink, ignoring a failure, then answer 500.\<close>

definition validate_catch :: "multer_file \<Rightarrow> world \<Rightarrow> response option \<times> world" where
  "validate_catch f w = (Some ValidateFailed, snd (fs_unlink (f_path f) w))"

definition validateFileMimeType ::
  "config \<Rightarrow> platform \<Rightarrow> multer_file option \<Rightarrow> world \<Rightarrow> response option \<times> world" where
  "validateFileMimeType cfg plat file w =
     (case file of
        None \<Rightarrow> (None, w)
      | Some f \<Rightarrow>
          (case fs_readFile (f_path f) w of
             Inl e \<Rightarrow> validate_catch f w
           | Inr fileBuffer \<Rightarrow>
               (case fromBuffer plat fileBuffer of
                  None \<Rightarrow> (None, w)
                | Some mime \<Rightarrow>
                    if mime \<noteq> f_mimetype f
                    then (case fs_unlink (f_path f) w of
                            (Inl e, w1) \<Rightarrow> validate_catch f w1
                          | (Inr _, w1) \<Rightarrow> (Some (MimeMismatch (f_mimetype f) mime), w1))
                    else if mime \<notin> set (allowedMimeTypes cfg)
                    then (case fs_unlink (f_path f) w of
                            (Inl e, w1) \<Rightarrow> validate_catch f w1
                          | (Inr _, w1) \<Rightarrow> (Some (ActualTypeNotAllowed mime), w1))
                    else (None, w))))"

section \<open>The upload route (routes/fileRoutes.js)\<close>

text \<open>
  \<open>router.post('/upload', upload.single('file'), checkStorageLimit(metadataStore),
  validateFileMimeType, handler)\<close>; \<open>now\<close> is the clock read by \<open>addFile\<close>.
\<close>

definition upload_handler :: "config \<Rightarrow> int \<Rightarrow> multer_file option \<Rightarrow> world \<Rightarrow> response \<times> world" where
  "upload_handler cfg now file w =
     (case file of
        None \<Rightarrow> (NoFileUploaded, w)
      | Some f \<Rightarrow>
          (case addFile cfg now f w of
             (Inl e, w1) \<Rightarrow> (Handled e, w1)
           | (Inr record, w1) \<Rightarrow> (Created record, w1)))"

definition post_upload ::
  "config \<Rightarrow> platform \<Rightarrow> int \<Rightarrow> incoming option \<Rightarrow> world \<Rightarrow> response \<times> world" where
  "post_upload cfg plat now part w =
     (case upload_single cfg plat part w of
        (Inl e, w1) \<Rightarrow> (Handled e, w1)
      | (Inr file, w1) \<Rightarrow>
          (case checkStorageLimit cfg file w1 of
             (Some r, w2) \<Rightarrow> (r, w2)
           | (None, w2) \<Rightarrow>
               (case validateFileMimeType cfg plat file w2 of
                  (Some r, w3) \<Rightarrow> (r, w3)
                | (None, w3) \<Rightarrow> upload_handler cfg now file w3)))"

section \<open>The lifecycle service (services/lifecycleService.js)\<close>

text \<open>
  The loop of \<open>cleanupExpiredFiles\<close>. The inner \<open>try\<close> swallows every error of \<open>fs.unlink\<close>
  (only logging those other than \<open>ENOENT\<close>); an error of \<open>deleteFile\<close> is caught by the outer
  \<open>try\<close> of the iteration, which then skips \<open>deletedCount++\<close>.
\<close>

fun expired_loop :: "file_record list \<Rightarrow> nat \<Rightarrow> world \<Rightarrow> nat \<times> world" where
  "expired_loop [] deletedCount w = (deletedCount, w)"
| "expired_loop (file # rest) deletedCount w =
     (let w1 = snd (fs_unlink (path file) w)
      in (case deleteFile (rec_id file) w1 of
            (Inl e, w2) \<Rightarrow> expired_loop rest deletedCount w2
          | (Inr _, w2) \<Rightarrow> expired_loop rest (deletedCount + 1) w2))"

definition cleanupExpiredFiles :: "int \<Rightarrow> world \<Rightarrow> (error + nat) \<times> world" where
  "cleanupExpiredFiles now w0 =
     (case getExpiredFiles now w0 of
        (Inl e, w) \<Rightarrow> (Inl e, w)
      | (Inr expiredFiles, w) \<Rightarrow>
          (case expired_loop expiredFiles 0 w of (deletedCount, w1) \<Rightarrow> (Inr deletedCount, w1)))"

definition cleanupOrphanedMetadata :: "world \<Rightarrow> (error + nat) \<times> world" where
  "cleanupOrphanedMetadata w = cleanOrphanedMetadata w"

text \<open>\<open>filename === '.gitkeep' || filename.startsWith('.')\<close>\<close>

definition skipped :: "string \<Rightarrow> bool" where
  "skipped name = (name = ''.gitkeep'' \<or> take 1 name = [dot])"

fun orphan_loop :: "config \<Rightarrow> string list \<Rightarrow> string list \<Rightarrow> nat \<Rightarrow> world \<Rightarrow> nat \<times> world" where
  "orphan_loop cfg knownFileIds [] deletedCount w = (deletedCount, w)"
| "orphan_loop cfg knownFileIds (name # rest) deletedCount w =
     (if skipped name then orphan_loop cfg knownFileIds rest deletedCount w
      else if name \<notin> set knownFileIds
      then (case fs_unlink (path_join (uploadDir cfg) name) w of
              (Inl e, w1) \<Rightarrow> orphan_loop cfg knownFileIds rest deletedCount w1
            | (Inr _, w1) \<Rightarrow> orphan_loop cfg knownFileIds rest (deletedCount + 1) w1)
      else orphan_loop cfg knownFileIds rest deletedCount w)"

text \<open>The outer \<open>catch\<close> of \<open>cleanupOrphanedFiles\<close> turns a failing directory listing into the count 0.\<close>

definition cleanupOrphanedFiles :: "config \<Rightarrow> world \<Rightarrow> nat \<times> world" where
  "cleanupOrphanedFiles cfg w0 =
     (case fs_readdir (uploadDir cfg) w0 of
        Inl e \<Rightarrow> (0, w0)
      | Inr names \<Rightarrow>
          (case getAllFiles w0 of
             (Inl e, w) \<Rightarrow> (0, w)
           | (Inr allMetadata, w) \<Rightarrow> orphan_loop cfg (map filename allMetadata) names 0 w))"

datatype cleanup_result =
    CleanupOk nat nat nat
  | CleanupFailed error

text \<open>
  \<open>runCleanup\<close>: the three phases run inside one \<open>try\<close>; whatever one of them throws ends the
  run with \<open>{ success: false, error }\<close>.
\<close>

definition runCleanup :: "config \<Rightarrow> int \<Rightarrow> world \<Rightarrow> cleanup_result \<times> world" where
  "runCleanup cfg now w0 =
     (case initialize w0 of
        (Inl e, w) \<Rightarrow> (CleanupFailed e, w)
      | (Inr _, w) \<Rightarrow>
          (case cleanupExpiredFiles now w of
             (Inl e, w1) \<Rightarrow> (CleanupFailed e, w1)
           | (Inr expiredCount, w1) \<Rightarrow>
               (case cleanupOrphanedMetadata w1 of
                  (Inl e, w2) \<Rightarrow> (CleanupFailed e, w2)
                | (Inr orphanedCount, w2) \<Rightarrow>
                    (case cleanupOrphanedFiles cfg w2 of
                       (orphanedFilesCount, w3) \<Rightarrow>
                         (CleanupOk expiredCount orphanedCount orphanedFilesCount, w3)))))"

section \<open>Derived notions used in the statements\<close>

text \<open>The sum that \<open>getTotalStorageUsed\<close> computes over the records in memory.\<close>

definition total_size :: "world \<Rightarrow> nat" where
  "total_size w = foldl (\<lambda>total record. total + rec_size record) 0 (map snd (metadata w))"

text \<open>The \<open>req.file\<close> object and the disk after multer has stored a part.\<close>

definition stored_file :: "config \<Rightarrow> incoming \<Rightarrow> multer_file" where
  "stored_file cfg file =
     \<lparr>f_originalname = in_originalname file, f_mimetype = in_mimetype file,
      f_filename = in_uniquename file,
      f_path = path_join (uploadDir cfg) (in_uniquename file),
      f_size = length (in_content file)\<rparr>"

definition stored :: "config \<Rightarrow> incoming \<Rightarrow> world \<Rightarrow> world" where
  "stored cfg file w =
     fs_writeFile (path_join (uploadDir cfg) (in_uniquename file)) (in_content file)
       (ensureUploadDir cfg w)"


text \<open>
  The invariant of the store's map: keys are distinct and every record sits under its own
  id. It holds for the empty map and is kept by every method of the store, by the upload
  route and by the sweep.
\<close>

definition store_ok :: "world \<Rightarrow> bool" where
  "store_ok w = (distinct (map fst (metadata w)) \<and> list_all (\<lambda>(k, r). k = rec_id r) (metadata w))"

text \<open>What one iteration of the expiry sweep adds to the trace, in order.\<close>

definition sweep_events :: "file_record \<Rightarrow> event list" where
  "sweep_events r = [Unlink (path r), MetaDelete (rec_id r)]"

text \<open>The records \<open>getExpiredFiles\<close> returns at time \<open>now\<close>, in the order of the map.\<close>

definition expired_at :: "int \<Rightarrow> world \<Rightarrow> file_record list" where
  "expired_at now w = filter (\<lambda>record. expiresAt record \<le> now) (map snd (metadata w))"

text \<open>The names \<open>fs.readdir(config.uploadDir)\<close> yields, none when it throws.\<close>

definition listing :: "config \<Rightarrow> world \<Rightarrow> string list" where
  "listing cfg w = (case fs_readdir (uploadDir cfg) w of Inl e \<Rightarrow> [] | Inr names \<Rightarrow> names)"

text \<open>
  A listed name that the orphan phase tries to delete and whose deletion is not refused:
  not skipped, not the \<open>filename\<close> of a record in memory, not locked.
\<close>

definition removable_orphan :: "config \<Rightarrow> world \<Rightarrow> string \<Rightarrow> bool" where
  "removable_orphan cfg w name =
     (\<not> skipped name \<and> name \<notin> set (map filename (map snd (metadata w)))
      \<and> path_join (uploadDir cfg) name \<notin> set (locked w))"

section \<open>Concrete inputs\<close>

text \<open>
  A small configuration, stand-ins for the library parameters (the sniffer knows the
  \<open>MZ\<close> signature of Windows executables only) and a freshly started service.
\<close>

definition demo_config :: config where
  "demo_config =
     \<lparr>maxFileSizeBytes = 100, uploadDir = ''uploads'', maxStorageBytes = 5,
      fileRetentionMs = 1000,
      allowedMimeTypes = [''text/plain'', ''image/png''],
      blockedExtensions = [''.exe'', ''.sh'']\<rparr>"

definition demo_platform :: platform where
  "demo_platform =
     \<lparr>extname = (\<lambda>name. dropWhile (\<lambda>c. c \<noteq> dot) name),
      toLowerCase = (\<lambda>s. s),
      fromBuffer = (\<lambda>buf. if take 2 buf = ''MZ'' then Some ''application/x-msdownload'' else None)\<rparr>"

definition fresh_world :: world where
  "fresh_world =
     \<lparr>files = [], dirs = [''uploads''], locked = [], meta_file = Missing,
      meta_writable = True, torn_write = False, metadata = [], initialized = True,
      trace = []\<rparr>"

definition notes_txt :: incoming where
  "notes_txt =
     \<lparr>in_originalname = ''notes.txt'', in_mimetype = ''text/plain'',
      in_content = ''hello'', in_uniquename = ''notes_1_ab.txt''\<rparr>"


definition renamed_exe :: incoming where
  "renamed_exe =
     \<lparr>in_originalname = ''setup.txt'', in_mimetype = ''text/plain'',
      in_content = ''MZA'', in_uniquename = ''setup_3_ef.txt''\<rparr>"

definition notes_file :: multer_file where
  "notes_file =
     \<lparr>f_originalname = ''notes.txt'', f_mimetype = ''text/plain'',
      f_filename = ''notes_1_ab.txt'', f_path = ''uploads/notes_1_ab.txt'', f_size = 5\<rparr>"

definition notes_record :: file_record where
  "notes_record =
     \<lparr>rec_id = ''notes_1_ab.txt'', originalName = ''notes.txt'', filename = ''notes_1_ab.txt'',
      mimeType = ''text/plain'', rec_size = 5, path = ''uploads/notes_1_ab.txt'',
      uploadedAt = 0, expiresAt = 1000\<rparr>"

text \<open>A started service whose upload directory holds a \<open>.gitkeep\<close> and one stray file.\<close>

definition littered_world :: world where
  "littered_world =
     fresh_world\<lparr>files := [(''uploads/.gitkeep'', []), (''uploads/stray.bin'', ''zz'')]\<rparr>"

text \<open>
  A started service with two expired records; the file of the second one is already gone.
\<close>

definition gone_record :: file_record where
  "gone_record =
     \<lparr>rec_id = ''old_0_aa.txt'', originalName = ''old.txt'', filename = ''old_0_aa.txt'',
      mimeType = ''text/plain'', rec_size = 3, path = ''uploads/old_0_aa.txt'',
      uploadedAt = 0, expiresAt = 1000\<rparr>"

definition expired_world :: world where
  "expired_world =
     fresh_world\<lparr>files := [(''uploads/notes_1_ab.txt'', ''hello'')],
                  metadata := [(''notes_1_ab.txt'', notes_record), (''old_0_aa.txt'', gone_record)]\<rparr>"

text \<open>
  A started service that holds a record whose file is missing, has a stray file in the
  upload directory and cannot write its snapshot file.
\<close>

definition stale_world :: world where
  "stale_world =
     fresh_world\<lparr>files := [(''uploads/stray.bin'', ''zz'')],
                  metadata := [(''notes_1_ab.txt'', notes_record)],
                  meta_writable := False\<rparr>"


section \<open>Facts about the store\<close>

lemma initialize_initialized: "initialized w \<Longrightarrow> initialize w = (Inr (), w)"
  by (simp add: initialize_def)

lemma initialize_frame:
  "initialize w = (r, w') \<Longrightarrow>
     files w' = files w \<and> dirs w' = dirs w \<and> locked w' = locked w
     \<and> meta_file w' = meta_file w \<and> meta_writable w' = meta_writable w \<and> trace w' = trace w"
  by (auto simp: initialize_def split: if_splits meta_file.splits)

lemma initialize_Inr: "initialize w = (Inr u, w') \<Longrightarrow> initialized w'"
  by (auto simp: initialize_def split: if_splits meta_file.splits)

lemma initialize_Inl: "initialize w = (Inl e, w') \<Longrightarrow> w' = w \<and> e = InitError"
  by (auto simp: initialize_def split: if_splits meta_file.splits)

lemma initialize_stored:
  "initialize (stored cfg file w)
   = (fst (initialize w),
      (snd (initialize w))\<lparr>files := files (stored cfg file w), dirs := dirs (stored cfg file w)\<rparr>)"
  by (simp add: initialize_def stored_def fs_writeFile_def ensureUploadDir_def split: meta_file.splits)

lemma getTotalStorageUsed_alt:
  "getTotalStorageUsed w =
     (case initialize w of (Inl e, w') \<Rightarrow> (Inl e, w') | (Inr u, w') \<Rightarrow> (Inr (total_size w'), w'))"
  by (simp add: getTotalStorageUsed_def total_size_def split: prod.splits sum.splits)



section \<open>Facts about the upload pipeline\<close>

lemma stored_file_sel:
  "f_filename (stored_file cfg file) = in_uniquename file"
  "f_mimetype (stored_file cfg file) = in_mimetype file"
  "f_size (stored_file cfg file) = length (in_content file)"
  "f_path (stored_file cfg file) = path_join (uploadDir cfg) (in_uniquename file)"
  by (simp_all add: stored_file_def)


lemma upload_single_Some:
  "upload_single cfg plat (Some file) w =
     (case fileFilter cfg plat file of
        Some e \<Rightarrow> (Inl e, w)
      | None \<Rightarrow> if length (in_content file) \<ge> maxFileSizeBytes cfg
                then (Inl LimitFileSize, ensureUploadDir cfg w)
                else (Inr (Some (stored_file cfg file)), stored cfg file w))"
  by (simp add: upload_single_def stored_file_def stored_def Let_def split: option.splits)

lemma checkStorageLimit_admit:
  assumes "initialize w = (Inr (), w')"
      and "total_size w' + f_size f \<le> maxStorageBytes cfg"
  shows "checkStorageLimit cfg (Some f) w = (None, w')"
  using assms by (simp add: checkStorageLimit_def getTotalStorageUsed_alt)

lemma checkStorageLimit_reject:
  assumes "initialize w = (Inr (), w')"
      and "total_size w' + f_size f > maxStorageBytes cfg"
  shows "checkStorageLimit cfg (Some f) w =
           (case fs_unlink (f_path f) w' of
              (Inl e, w1) \<Rightarrow> (Some StorageCheckFailed, w1)
            | (Inr u, w1) \<Rightarrow> (Some StorageLimitExceeded, w1))"
  using assms by (simp add: checkStorageLimit_def getTotalStorageUsed_alt)

lemma checkStorageLimit_init_failure:
  assumes "initialize w = (Inl e, w')"
  shows "checkStorageLimit cfg file w = (Some StorageCheckFailed, w')"
  using assms by (simp add: checkStorageLimit_def getTotalStorageUsed_alt)

lemma checkStorageLimit_not_next:
  "checkStorageLimit cfg (Some f) w = (None, w') \<Longrightarrow>
     initialize w = (Inr (), w') \<and> total_size w' + f_size f \<le> maxStorageBytes cfg"
  by (auto simp: checkStorageLimit_def getTotalStorageUsed_alt Let_def
           split: prod.splits sum.splits if_splits)




lemma post_upload_rejected_by_filter:
  "fileFilter cfg plat file = Some e \<Longrightarrow> post_upload cfg plat now (Some file) w = (Handled e, w)"
  by (simp add: post_upload_def upload_single_Some)

lemma post_upload_too_large:
  "fileFilter cfg plat file = None \<Longrightarrow> length (in_content file) \<ge> maxFileSizeBytes cfg \<Longrightarrow>
   post_upload cfg plat now (Some file) w = (Handled LimitFileSize, ensureUploadDir cfg w)"
  by (simp add: post_upload_def upload_single_Some)

lemma post_upload_init_failure:
  assumes "fileFilter cfg plat file = None"
      and "length (in_content file) < maxFileSizeBytes cfg"
      and "fst (initialize w) \<noteq> Inr ()"
  shows "fst (post_upload cfg plat now (Some file) w) = StorageCheckFailed"
proof -
  obtain r w' where i: "initialize (stored cfg file w) = (r, w')"
    by (cases "initialize (stored cfg file w)")
  with assms(3) have "r \<noteq> Inr ()"
    by (simp add: initialize_stored)
  then obtain e where "r = Inl e"
    by (cases r) auto
  with i assms(1,2) show ?thesis
    by (simp add: post_upload_def upload_single_Some checkStorageLimit_init_failure)
qed

lemma post_upload_past_filter:
  assumes ff: "fileFilter cfg plat file = None"
      and sz: "length (in_content file) < maxFileSizeBytes cfg"
      and init: "initialize w = (Inr (), wi)"
  shows "post_upload cfg plat now (Some file) w =
     (let w1 = wi\<lparr>files := files (stored cfg file w), dirs := dirs (stored cfg file w)\<rparr>
      in if total_size wi + length (in_content file) > maxStorageBytes cfg
         then (case fs_unlink (f_path (stored_file cfg file)) w1 of
                 (Inl e, w2) \<Rightarrow> (StorageCheckFailed, w2)
               | (Inr u, w2) \<Rightarrow> (StorageLimitExceeded, w2))
         else (case validateFileMimeType cfg plat (Some (stored_file cfg file)) w1 of
                 (Some r, w3) \<Rightarrow> (r, w3)
               | (None, w3) \<Rightarrow> upload_handler cfg now (Some (stored_file cfg file)) w3))"
proof -
  let ?w1 = "wi\<lparr>files := files (stored cfg file w), dirs := dirs (stored cfg file w)\<rparr>"
  have i1: "initialize (stored cfg file w) = (Inr (), ?w1)"
    using init by (simp add: initialize_stored)
  have t: "total_size ?w1 = total_size wi"
    by (simp add: total_size_def)
  have s: "f_size (stored_file cfg file) = length (in_content file)"
    by (simp add: stored_file_def)
  show ?thesis
  proof (cases "total_size wi + length (in_content file) > maxStorageBytes cfg")
    case True
    then have "checkStorageLimit cfg (Some (stored_file cfg file)) (stored cfg file w) =
           (case fs_unlink (f_path (stored_file cfg file)) ?w1 of
              (Inl e, w1) \<Rightarrow> (Some StorageCheckFailed, w1)
            | (Inr u, w1) \<Rightarrow> (Some StorageLimitExceeded, w1))"
      using checkStorageLimit_reject [OF i1, of cfg "stored_file cfg file"] by (simp add: t s)
    with True ff sz show ?thesis
      by (simp add: post_upload_def upload_single_Some Let_def split: prod.splits sum.splits)
  next
    case False
    then have "checkStorageLimit cfg (Some (stored_file cfg file)) (stored cfg file w) = (None, ?w1)"
      using checkStorageLimit_admit [OF i1, of "stored_file cfg file" cfg] by (simp add: t s)
    with False ff sz show ?thesis
      by (simp add: post_upload_def upload_single_Some Let_def)
  qed
qed






section \<open>Facts about the sweep\<close>

lemma fs_unlink_frame:
  "metadata (snd (fs_unlink p w)) = metadata w"
  "initialized (snd (fs_unlink p w)) = initialized w"
  "meta_writable (snd (fs_unlink p w)) = meta_writable w"
  "trace (snd (fs_unlink p w)) = trace w @ [Unlink p]"
  by (simp_all add: fs_unlink_def Let_def)

lemma deleteFile_present:
  assumes "initialized w" and "map_of (metadata w) k = Some r"
  shows "initialized (snd (deleteFile k w))"
    and "metadata (snd (deleteFile k w)) = AList.delete k (metadata w)"
    and "trace (snd (deleteFile k w)) = trace w @ [MetaDelete k]"
    and "meta_writable (snd (deleteFile k w)) = meta_writable w"
    and "fst (deleteFile k w) = (if meta_writable w then Inr (Some r) else Inl PersistError)"
  using assms
  by (simp_all add: deleteFile_def initialize_initialized persist_def Let_def)

lemma map_of_foldl_delete:
  "map_of (foldl (\<lambda>m i. AList.delete i m) m ks) k
   = (if k \<in> set ks then None else map_of m k)"
  by (induction ks arbitrary: m) (auto simp: delete_conv')

lemma expired_loop_result:
  assumes "initialized w"
      and "distinct (map rec_id rs)"
      and "\<forall>r \<in> set rs. map_of (metadata w) (rec_id r) \<noteq> None"
  shows "trace (snd (expired_loop rs n w)) = trace w @ concat (map sweep_events rs)
       \<and> metadata (snd (expired_loop rs n w))
           = foldl (\<lambda>m i. AList.delete i m) (metadata w) (map rec_id rs)
       \<and> fst (expired_loop rs n w) = (if meta_writable w then n + length rs else n)"
  using assms
proof (induction rs arbitrary: n w)
  case Nil
  then show ?case by simp
next
  case (Cons r rs)
  let ?w1 = "snd (fs_unlink (path r) w)"
  obtain res w2 where res: "deleteFile (rec_id r) ?w1 = (res, w2)"
    by (cases "deleteFile (rec_id r) ?w1")
  then have w2: "w2 = snd (deleteFile (rec_id r) ?w1)" and r2: "res = fst (deleteFile (rec_id r) ?w1)"
    by simp_all
  obtain x where x: "map_of (metadata ?w1) (rec_id r) = Some x"
    using Cons.prems(3) by (auto simp: fs_unlink_frame)
  have i1: "initialized ?w1"
    using Cons.prems(1) by (simp add: fs_unlink_frame)
  have i2: "initialized w2"
    unfolding w2 by (rule deleteFile_present(1) [OF i1 x])
  have m2: "metadata w2 = AList.delete (rec_id r) (metadata w)"
    unfolding w2 using deleteFile_present(2) [OF i1 x] by (simp add: fs_unlink_frame)
  have t2: "trace w2 = trace w @ sweep_events r"
    unfolding w2 using deleteFile_present(3) [OF i1 x] by (simp add: fs_unlink_frame sweep_events_def)
  have wr2: "meta_writable w2 = meta_writable w"
    unfolding w2 using deleteFile_present(4) [OF i1 x] by (simp add: fs_unlink_frame)
  have res': "res = (if meta_writable w then Inr (Some x) else Inl PersistError)"
    unfolding r2 using deleteFile_present(5) [OF i1 x] by (simp add: fs_unlink_frame)
  have d: "distinct (map rec_id rs)"
    using Cons.prems(2) by simp
  have p: "\<forall>r' \<in> set rs. map_of (metadata w2) (rec_id r') \<noteq> None"
  proof
    fix r' assume r': "r' \<in> set rs"
    have "rec_id r \<notin> rec_id ` set rs"
      using Cons.prems(2) by simp
    with r' have "rec_id r' \<noteq> rec_id r"
      by (metis imageI)
    then have "map_of (AList.delete (rec_id r) (metadata w)) (rec_id r') = map_of (metadata w) (rec_id r')"
      by (rule map_of_delete)
    then show "map_of (metadata w2) (rec_id r') \<noteq> None"
      using Cons.prems(3) r' by (simp add: m2)
  qed
  note ih = Cons.IH [OF i2 d p]
  show ?case
  proof (cases "meta_writable w")
    case True
    then show ?thesis
      using ih [of "n + 1"] by (simp add: Let_def res res' t2 m2 wr2)
  next
    case False
    then show ?thesis
      using ih [of n] by (simp add: Let_def res res' t2 m2 wr2)
  qed
qed

lemma store_ok_expired:
  assumes "store_ok w"
  shows "distinct (map rec_id (filter P (map snd (metadata w))))"
    and "\<forall>r \<in> set (filter P (map snd (metadata w))). map_of (metadata w) (rec_id r) \<noteq> None"
proof -
  have k: "map rec_id (map snd (metadata w)) = map fst (metadata w)"
    using assms by (auto simp: store_ok_def list_all_iff)
  have "distinct (map fst (metadata w))"
    using assms by (simp add: store_ok_def)
  then have "distinct (map rec_id (map snd (metadata w)))"
    by (simp only: k)
  then show "distinct (map rec_id (filter P (map snd (metadata w))))"
    by (rule distinct_map_filter)
  show "\<forall>r \<in> set (filter P (map snd (metadata w))). map_of (metadata w) (rec_id r) \<noteq> None"
  proof
    fix r assume "r \<in> set (filter P (map snd (metadata w)))"
    then obtain k where "(k, r) \<in> set (metadata w)"
      by auto
    moreover from this have "k = rec_id r"
      using assms by (auto simp: store_ok_def list_all_iff)
    ultimately have "rec_id r \<in> fst ` set (metadata w)"
      by force
    then show "map_of (metadata w) (rec_id r) \<noteq> None"
      by (simp add: map_of_eq_None_iff)
  qed
qed

lemma list_all_update:
  "list_all P al \<Longrightarrow> P (k, v) \<Longrightarrow> list_all P (AList.update k v al)"
  by (induction al) auto

lemma list_all_delete: "list_all P al \<Longrightarrow> list_all P (AList.delete k al)"
  by (simp add: AList.delete_eq list_all_iff)

lemma alist_ok_update:
  assumes "distinct (map fst al) \<and> list_all (\<lambda>(k, r). k = rec_id r) al"
  shows "distinct (map fst (AList.update (rec_id r) r al))
         \<and> list_all (\<lambda>(k, r). k = rec_id r) (AList.update (rec_id r) r al)"
  using assms by (simp add: distinct_update list_all_update)

lemma alist_ok_delete:
  assumes "distinct (map fst al) \<and> list_all (\<lambda>(k, r). k = rec_id r) al"
  shows "distinct (map fst (AList.delete k al))
         \<and> list_all (\<lambda>(k, r). k = rec_id r) (AList.delete k al)"
  using assms by (simp add: distinct_delete list_all_delete)

lemma alist_ok_foldl_update:
  assumes "distinct (map fst al) \<and> list_all (\<lambda>(k, r). k = rec_id r) al"
  shows "distinct (map fst (foldl (\<lambda>m r. AList.update (rec_id r) r m) al rs))
         \<and> list_all (\<lambda>(k, r). k = rec_id r) (foldl (\<lambda>m r. AList.update (rec_id r) r m) al rs)"
  using assms
proof (induction rs arbitrary: al)
  case Nil
  then show ?case by simp
next
  case (Cons r rs)
  show ?case
    using Cons.IH [OF alist_ok_update [OF Cons.prems, of r]] by simp
qed

lemma alist_ok_foldl_delete:
  assumes "distinct (map fst al) \<and> list_all (\<lambda>(k, r). k = rec_id r) al"
  shows "distinct (map fst (foldl (\<lambda>m i. AList.delete i m) al ks))
         \<and> list_all (\<lambda>(k, r). k = rec_id r) (foldl (\<lambda>m i. AList.delete i m) al ks)"
  using assms
proof (induction ks arbitrary: al)
  case Nil
  then show ?case by simp
next
  case (Cons k ks)
  show ?case
    using Cons.IH [OF alist_ok_delete [OF Cons.prems, of k]] by simp
qed

lemma store_ok_empty: "metadata w = [] \<Longrightarrow> store_ok w"
  by (simp add: store_ok_def)

lemma store_ok_initialize: "store_ok w \<Longrightarrow> store_ok (snd (initialize w))"
  using alist_ok_foldl_update [of "metadata w"]
  by (auto simp: store_ok_def initialize_def split: meta_file.splits)

lemma store_ok_persist: "store_ok w \<Longrightarrow> store_ok (snd (persist w))"
  by (simp add: store_ok_def persist_def)

lemma store_ok_addFile: "store_ok w \<Longrightarrow> store_ok (snd (addFile cfg now f w))"
proof -
  assume a: "store_ok w"
  obtain r w1 where i: "initialize w = (r, w1)"
    by (cases "initialize w")
  with store_ok_initialize [OF a] have ok1: "store_ok w1"
    by simp
  have n: "f_filename f = rec_id (new_record cfg now f)"
    by (simp add: new_record_def)
  show ?thesis
  proof (cases r)
    case (Inl e)
    with i ok1 show ?thesis by (simp add: addFile_def)
  next
    case (Inr u)
    with i show ?thesis
      using alist_ok_update [of "metadata w1" "new_record cfg now f"] ok1
      by (simp add: addFile_def Let_def persist_def store_ok_def)
  qed
qed

lemma store_ok_deleteFile: "store_ok w \<Longrightarrow> store_ok (snd (deleteFile k w))"
proof -
  assume a: "store_ok w"
  obtain r w1 where i: "initialize w = (r, w1)"
    by (cases "initialize w")
  with store_ok_initialize [OF a] have ok1: "store_ok w1"
    by simp
  show ?thesis
  proof (cases r)
    case (Inl e)
    with i ok1 show ?thesis by (simp add: deleteFile_def)
  next
    case (Inr u)
    with i show ?thesis
      using alist_ok_delete [of "metadata w1" k] ok1
      by (simp add: deleteFile_def Let_def persist_def store_ok_def split: option.splits)
  qed
qed

lemma store_ok_cleanOrphanedMetadata: "store_ok w \<Longrightarrow> store_ok (snd (cleanOrphanedMetadata w))"
proof -
  assume a: "store_ok w"
  obtain r w1 where i: "initialize w = (r, w1)"
    by (cases "initialize w")
  with store_ok_initialize [OF a] have ok1: "store_ok w1"
    by simp
  show ?thesis
  proof (cases r)
    case (Inl e)
    with i ok1 show ?thesis by (simp add: cleanOrphanedMetadata_def)
  next
    case (Inr u)
    with i show ?thesis
      using alist_ok_foldl_delete [of "metadata w1"] ok1
      by (simp add: cleanOrphanedMetadata_def Let_def persist_def store_ok_def)
  qed
qed

lemma path_join_inject [simp]: "path_join d x = path_join d y \<longleftrightarrow> x = y"
  by (simp add: path_join_def)

lemma child_name_Some: "child_name d p = Some n \<Longrightarrow> p = path_join d n"
proof -
  assume a: "child_name d p = Some n"
  then have "take (length d + 1) p = d @ [slash]" and "n = drop (length d + 1) p"
    by (auto simp: child_name_def Let_def split: if_splits)
  then have "p = (d @ [slash]) @ n"
    by (metis append_take_drop_id)
  then show ?thesis
    by (simp add: path_join_def)
qed

lemma in_map_filterD:
  "n \<in> set (List.map_filter f xs) \<Longrightarrow> \<exists>x \<in> set xs. f x = Some n"
  by (induction xs) (auto split: option.splits)

lemma listing_exists:
  "n \<in> set (listing cfg w) \<Longrightarrow> exists_file w (path_join (uploadDir cfg) n)"
proof -
  assume "n \<in> set (listing cfg w)"
  then obtain p where p: "p \<in> set (map fst (files w))" and c: "child_name (uploadDir cfg) p = Some n"
    by (auto simp: listing_def fs_readdir_def split: if_splits dest: in_map_filterD)
  from c have "p = path_join (uploadDir cfg) n"
    by (rule child_name_Some)
  with p show ?thesis
    by (simp add: exists_file_def map_of_eq_None_iff)
qed

lemma listing_distinct: "distinct (listing cfg w)"
  by (simp add: listing_def fs_readdir_def)

lemma orphan_loop_result:
  assumes "distinct names"
      and "\<forall>n \<in> set names. exists_file w (path_join (uploadDir cfg) n)"
  shows "fst (orphan_loop cfg known names c w)
           = c + length (filter (\<lambda>n. \<not> skipped n \<and> n \<notin> set known
                                       \<and> path_join (uploadDir cfg) n \<notin> set (locked w)) names)
         \<and> (\<forall>p. exists_file (snd (orphan_loop cfg known names c w)) p
                \<longleftrightarrow> exists_file w p
                    \<and> p \<notin> path_join (uploadDir cfg) `
                           {n \<in> set names. \<not> skipped n \<and> n \<notin> set known
                                            \<and> path_join (uploadDir cfg) n \<notin> set (locked w)})
         \<and> locked (snd (orphan_loop cfg known names c w)) = locked w
         \<and> metadata (snd (orphan_loop cfg known names c w)) = metadata w"
  using assms
proof (induction names arbitrary: c w)
  case Nil
  then show ?case by simp
next
  case (Cons x xs)
  let ?p = "path_join (uploadDir cfg) x"
  have dx: "distinct xs" and nx: "x \<notin> set xs"
    using Cons.prems(1) by simp_all
  have ex: "\<forall>n \<in> set xs. exists_file w (path_join (uploadDir cfg) n)"
    using Cons.prems(2) by simp
  show ?case
  proof (cases "skipped x \<or> x \<in> set known")
    case True
    then have "orphan_loop cfg known (x # xs) c w = orphan_loop cfg known xs c w"
      by auto
    then show ?thesis
      using Cons.IH [OF dx ex, of c] True by (auto simp del: orphan_loop.simps)
  next
    case False
    note cand = this
    have here: "exists_file w ?p"
      using Cons.prems(2) by simp
    show ?thesis
    proof (cases "?p \<in> set (locked w)")
      case True
      let ?w1 = "w\<lparr>trace := trace w @ [Unlink ?p]\<rparr>"
      have u: "fs_unlink ?p w = (Inl EPERM, ?w1)"
        using here True by (simp add: fs_unlink_def Let_def)
      have step: "orphan_loop cfg known (x # xs) c w = orphan_loop cfg known xs c ?w1"
        using cand by (simp add: u)
      have ex1: "\<forall>n \<in> set xs. exists_file ?w1 (path_join (uploadDir cfg) n)"
        using ex by (simp add: exists_file_def)
      show ?thesis
        using Cons.IH [OF dx ex1, of c] True cand
        by (auto simp: step exists_file_def simp del: orphan_loop.simps)
    next
      case False
      let ?w1 = "w\<lparr>trace := trace w @ [Unlink ?p], files := AList.delete ?p (files w)\<rparr>"
      have u: "fs_unlink ?p w = (Inr (), ?w1)"
        using here False by (simp add: fs_unlink_def Let_def)
      have step: "orphan_loop cfg known (x # xs) c w = orphan_loop cfg known xs (c + 1) ?w1"
        using cand by (simp add: u)
      have ex1: "\<forall>n \<in> set xs. exists_file ?w1 (path_join (uploadDir cfg) n)"
        using ex nx by (auto simp: exists_file_def delete_conv')
      have e1: "\<And>p. exists_file ?w1 p \<longleftrightarrow> exists_file w p \<and> p \<noteq> ?p"
        by (auto simp: exists_file_def delete_conv')
      show ?thesis
        using Cons.IH [OF dx ex1, of "c + 1"] False cand
        by (auto simp: step e1 simp del: orphan_loop.simps)
    qed
  qed
qed

text \<open>The invariant of the map is kept by the upload route and by a whole sweep.\<close>

lemma store_ok_cong: "metadata w' = metadata w \<Longrightarrow> store_ok w' = store_ok w"
  by (simp add: store_ok_def)

lemma store_ok_fs_unlink: "store_ok (snd (fs_unlink p w)) = store_ok w"
  by (rule store_ok_cong) (simp add: fs_unlink_frame)

lemma store_ok_upload_single:
  "store_ok w \<Longrightarrow> store_ok (snd (upload_single cfg plat part w))"
  by (cases part)
     (auto simp: upload_single_def store_ok_def fs_writeFile_def ensureUploadDir_def Let_def
           split: option.splits)

lemma store_ok_checkStorageLimit:
  assumes "store_ok w"
  shows "store_ok (snd (checkStorageLimit cfg file w))"
proof -
  obtain r w1 where i: "initialize w = (r, w1)"
    by (cases "initialize w")
  with store_ok_initialize [OF assms] have ok1: "store_ok w1"
    by simp
  have u: "\<And>p. store_ok (snd (fs_unlink p w1))"
    using ok1 by (simp add: store_ok_fs_unlink)
  show ?thesis
    using ok1 u i
    by (cases r; cases "file")
       (auto simp: checkStorageLimit_def getTotalStorageUsed_alt Let_def split_beta
             split: prod.splits sum.splits)
qed

lemma store_ok_validateFileMimeType:
  assumes "store_ok w"
  shows "store_ok (snd (validateFileMimeType cfg plat file w))"
proof -
  have u: "\<And>p. store_ok (snd (fs_unlink p w))"
    using assms by (simp add: store_ok_fs_unlink)
  have uu: "\<And>p q. store_ok (snd (fs_unlink q (snd (fs_unlink p w))))"
    using u by (simp add: store_ok_fs_unlink)
  show ?thesis
    using assms u uu
    by (auto simp: validateFileMimeType_def validate_catch_def split_beta
             split: option.splits sum.splits)
qed

lemma store_ok_upload_handler:
  "store_ok w \<Longrightarrow> store_ok (snd (upload_handler cfg now file w))"
  using store_ok_addFile [of w cfg now]
  by (auto simp: upload_handler_def split_beta split: option.splits sum.splits)

lemma store_ok_post_upload:
  assumes "store_ok w"
  shows "store_ok (snd (post_upload cfg plat now part w))"
proof -
  obtain r1 w1 where a: "upload_single cfg plat part w = (r1, w1)"
    by (cases "upload_single cfg plat part w")
  have ok1: "store_ok w1"
    using store_ok_upload_single [OF assms, of cfg plat part] a by simp
  show ?thesis
  proof (cases r1)
    case (Inl e)
    with a ok1 show ?thesis by (simp add: post_upload_def)
  next
    case (Inr mf)
    obtain r2 w2 where b: "checkStorageLimit cfg mf w1 = (r2, w2)"
      by (cases "checkStorageLimit cfg mf w1")
    have ok2: "store_ok w2"
      using store_ok_checkStorageLimit [OF ok1, of cfg mf] b by simp
    obtain r3 w3 where c: "validateFileMimeType cfg plat mf w2 = (r3, w3)"
      by (cases "validateFileMimeType cfg plat mf w2")
    have ok3: "store_ok w3"
      using store_ok_validateFileMimeType [OF ok2, of cfg plat mf] c by simp
    show ?thesis
      using ok2 ok3 store_ok_upload_handler [OF ok3, of cfg now mf]
      by (cases r2; cases r3) (simp_all add: post_upload_def a Inr b c)
  qed
qed

lemma store_ok_expired_loop:
  "store_ok w \<Longrightarrow> store_ok (snd (expired_loop rs n w))"
proof (induction rs arbitrary: n w)
  case Nil
  then show ?case by simp
next
  case (Cons r rs)
  let ?w1 = "snd (fs_unlink (path r) w)"
  obtain res w2 where res: "deleteFile (rec_id r) ?w1 = (res, w2)"
    by (cases "deleteFile (rec_id r) ?w1")
  have "store_ok ?w1"
    using Cons.prems by (simp add: store_ok_fs_unlink)
  then have ok2: "store_ok w2"
    using store_ok_deleteFile [of ?w1 "rec_id r"] res by simp
  show ?case
    using Cons.IH [OF ok2] by (cases res) (simp_all add: Let_def res)
qed

lemma orphan_loop_metadata:
  "metadata (snd (orphan_loop cfg known names c w)) = metadata w"
proof (induction names arbitrary: c w)
  case Nil
  then show ?case by simp
next
  case (Cons x xs)
  obtain r w1 where u: "fs_unlink (path_join (uploadDir cfg) x) w = (r, w1)"
    by (cases "fs_unlink (path_join (uploadDir cfg) x) w")
  then have m1: "metadata w1 = metadata w"
    using fs_unlink_frame(1) [of "path_join (uploadDir cfg) x" w] by simp
  show ?case
    using Cons.IH m1 by (cases r) (simp_all add: u)
qed

lemma store_ok_cleanupOrphanedFiles:
  assumes "store_ok w"
  shows "store_ok (snd (cleanupOrphanedFiles cfg w))"
proof -
  obtain r w1 where i: "initialize w = (r, w1)"
    by (cases "initialize w")
  with store_ok_initialize [OF assms] have ok1: "store_ok w1"
    by simp
  have l: "\<And>known names. store_ok (snd (orphan_loop cfg known names 0 w1))"
    using ok1 by (simp add: store_ok_cong [OF orphan_loop_metadata])
  show ?thesis
    using assms ok1 l i
    by (cases r) (auto simp: cleanupOrphanedFiles_def getAllFiles_def split: sum.splits)
qed

lemma store_ok_runCleanup:
  assumes "store_ok w"
  shows "store_ok (snd (runCleanup cfg now w))"
proof -
  obtain r0 w0 where i: "initialize w = (r0, w0)"
    by (cases "initialize w")
  with store_ok_initialize [OF assms] have ok0: "store_ok w0"
    by simp
  obtain r1 w1 where a: "cleanupExpiredFiles now w0 = (r1, w1)"
    by (cases "cleanupExpiredFiles now w0")
  have ok1: "store_ok w1"
  proof -
    obtain r w' where j: "initialize w0 = (r, w')"
      by (cases "initialize w0")
    with store_ok_initialize [OF ok0] have "store_ok w'"
      by simp
    then show ?thesis
      using a j store_ok_expired_loop [of w']
      by (cases r) (auto simp: cleanupExpiredFiles_def getExpiredFiles_def split_beta)
  qed
  obtain r2 w2 where b: "cleanOrphanedMetadata w1 = (r2, w2)"
    by (cases "cleanOrphanedMetadata w1")
  have ok2: "store_ok w2"
    using store_ok_cleanOrphanedMetadata [OF ok1] b by simp
  have ok3: "store_ok (snd (cleanupOrphanedFiles cfg w2))"
    by (rule store_ok_cleanupOrphanedFiles [OF ok2])
  show ?thesis
    using ok0 ok1 ok2 ok3
    by (cases r0; cases r1; cases r2)
       (simp_all add: runCleanup_def i a cleanupOrphanedMetadata_def b split_beta)
qed

section \<open>C1: what a failed upload leaves on disk\<close>

text \<open>
  The gates that answer the request themselves do clean up: a rejection by \<open>fileFilter\<close>
  happens before anything is written (\<open>post_upload_rejected_by_filter\<close>), and whenever the
  route answers with the storage-limit, mismatch or type-not-allowed error, the file of the
  attempt has been unlinked.
\<close>

lemma fs_unlink_Inr:
  "fs_unlink p w = (Inr u, w') \<Longrightarrow> \<not> exists_file w' p"
  by (auto simp: fs_unlink_def exists_file_def Let_def delete_conv' split: if_splits)

lemma upload_handler_response:
  "fst (upload_handler cfg now file w) \<noteq> StorageLimitExceeded
   \<and> fst (upload_handler cfg now file w) \<noteq> MimeMismatch a b
   \<and> fst (upload_handler cfg now file w) \<noteq> ActualTypeNotAllowed t"
  by (simp add: upload_handler_def split: option.splits prod.splits sum.splits)

lemma validateFileMimeType_rejection:
  assumes "validateFileMimeType cfg plat (Some f) w = (Some r, w')"
      and "r = StorageLimitExceeded \<or> r = MimeMismatch a b \<or> r = ActualTypeNotAllowed t"
  shows "\<not> exists_file w' (f_path f)"
  using assms
  by (auto simp: validateFileMimeType_def validate_catch_def
           split: sum.splits option.splits if_splits prod.splits dest: fs_unlink_Inr)

lemma post_upload_rejections_leave_no_file:
  assumes "fst (post_upload cfg plat now (Some file) w) = StorageLimitExceeded
           \<or> fst (post_upload cfg plat now (Some file) w) = MimeMismatch a b
           \<or> fst (post_upload cfg plat now (Some file) w) = ActualTypeNotAllowed t"
  shows "\<not> exists_file (snd (post_upload cfg plat now (Some file) w))
             (path_join (uploadDir cfg) (in_uniquename file))"
proof (cases "fileFilter cfg plat file")
  case (Some e)
  then show ?thesis
    using assms by (simp add: post_upload_rejected_by_filter)
next
  case None
  note ff = this
  show ?thesis
  proof (cases "length (in_content file) < maxFileSizeBytes cfg")
    case False
    then show ?thesis
      using assms ff by (simp add: post_upload_too_large)
  next
    case True
    note sz = this
    show ?thesis
    proof (cases "fst (initialize w) = Inr ()")
      case False
      then show ?thesis
        using assms post_upload_init_failure [OF ff sz False, of now] by simp
    next
      case True
      then have init: "initialize w = (Inr (), snd (initialize w))"
        by (cases "initialize w") simp
      let ?w1 = "(snd (initialize w))\<lparr>files := files (stored cfg file w), dirs := dirs (stored cfg file w)\<rparr>"
      let ?f = "stored_file cfg file"
      note pu = post_upload_past_filter [OF ff sz init, of now]
      show ?thesis
      proof (cases "total_size (snd (initialize w)) + length (in_content file) > maxStorageBytes cfg")
        case True
        obtain r w2 where u: "fs_unlink (f_path ?f) ?w1 = (r, w2)"
          by (cases "fs_unlink (f_path ?f) ?w1")
        show ?thesis
        proof (cases r)
          case (Inl e)
          then show ?thesis
            using assms True u by (simp add: pu Let_def)
        next
          case (Inr x)
          then show ?thesis
            using True u fs_unlink_Inr [of "f_path ?f" ?w1 x w2]
            by (simp add: pu Let_def stored_file_sel)
        qed
      next
        case False
        obtain r w3 where v: "validateFileMimeType cfg plat (Some ?f) ?w1 = (r, w3)"
          by (cases "validateFileMimeType cfg plat (Some ?f) ?w1")
        show ?thesis
        proof (cases r)
          case None
          then show ?thesis
            using assms False v upload_handler_response [of cfg now "Some ?f" w3 a b t]
            by (simp add: pu Let_def)
        next
          case (Some resp)
          then show ?thesis
            using assms False v validateFileMimeType_rejection [of cfg plat ?f ?w1 resp w3 a b t]
            by (auto simp add: pu Let_def stored_file_sel)
        qed
      qed
    qed
  qed
qed

text \<open>
  C1 states that an upload failing at any gate, a failing metadata write included, leaves
  no file of that attempt in the storage directory. The handler forwards an error of
  \<open>addFile\<close> with \<open>next(error)\<close> and never unlinks: with an unwritable snapshot file the
  upload of \<open>notes.txt\<close> is answered with the persistence error while the bytes written by
  multer stay under uploads/.
\<close>

theorem post_upload_persist_failure_leaves_file:
  "fst (post_upload demo_config demo_platform 0 (Some notes_txt)
          (fresh_world\<lparr>meta_writable := False\<rparr>)) = Handled PersistError
   \<and> \<not> exists_file (fresh_world\<lparr>meta_writable := False\<rparr>) ''uploads/notes_1_ab.txt''
   \<and> exists_file (snd (post_upload demo_config demo_platform 0 (Some notes_txt)
                         (fresh_world\<lparr>meta_writable := False\<rparr>))) ''uploads/notes_1_ab.txt''"
  by code_simp

section \<open>C2: a failing snapshot write in \<open>addFile\<close>\<close>

text \<open>
  C2 as stated: when the snapshot write of \<open>addFile\<close> fails, the call fails with a
  persistence error and the in-memory map is rolled back, so that the new record is absent.
  \<open>addFile\<close> performs \<open>this.metadata.set\<close> before \<open>persist\<close> and has no handler around it: in a
  store that held no record, the failed call leaves the new record in memory.
\<close>

theorem addFile_no_rollback_counterexample:
  "fst (addFile demo_config 0 notes_file (fresh_world\<lparr>meta_writable := False\<rparr>)) = Inl PersistError
   \<and> map_of (metadata (fresh_world\<lparr>meta_writable := False\<rparr>)) ''notes_1_ab.txt'' = None
   \<and> map_of (metadata (snd (addFile demo_config 0 notes_file (fresh_world\<lparr>meta_writable := False\<rparr>))))
        ''notes_1_ab.txt'' = Some notes_record"
  by code_simp

text \<open>
  C2 as amended: when the snapshot write of \<open>addFile\<close> fails (the store being initialised or
  initialisable), the call fails with the persistence error and the in-memory map is not
  rolled back: it is the map before the call with the new record set under its id, so the
  new record is present in memory after the failed call.
\<close>

theorem addFile_persist_failure_keeps_record:
  assumes "fst (initialize w) = Inr ()" and "\<not> meta_writable w"
  shows "fst (addFile cfg now f w) = Inl PersistError
     \<and> metadata (snd (addFile cfg now f w))
         = AList.update (f_filename f) (new_record cfg now f) (metadata (snd (initialize w)))
     \<and> map_of (metadata (snd (addFile cfg now f w))) (f_filename f) = Some (new_record cfg now f)"
  using assms
  by (auto simp: addFile_def initialize_def persist_def new_record_def Let_def update_conv'
           split: if_splits meta_file.splits prod.splits sum.splits)

theorem addFile_persist_failure_keeps_record_witness:
  "fst (initialize (fresh_world\<lparr>meta_writable := False\<rparr>)) = Inr ()
   \<and> \<not> meta_writable (fresh_world\<lparr>meta_writable := False\<rparr>)
   \<and> fst (addFile demo_config 0 notes_file (fresh_world\<lparr>meta_writable := False\<rparr>)) = Inl PersistError
   \<and> metadata (snd (addFile demo_config 0 notes_file (fresh_world\<lparr>meta_writable := False\<rparr>)))
       = [(''notes_1_ab.txt'', notes_record)]"
proof -
  have h1: "fst (initialize (fresh_world\<lparr>meta_writable := False\<rparr>)) = Inr ()"
    by (simp add: initialize_def fresh_world_def)
  have h2: "\<not> meta_writable (fresh_world\<lparr>meta_writable := False\<rparr>)"
    by simp
  have r: "new_record demo_config 0 notes_file = notes_record"
    by (simp add: new_record_def demo_config_def notes_file_def notes_record_def)
  have i: "metadata (snd (initialize (fresh_world\<lparr>meta_writable := False\<rparr>))) = []"
    by (simp add: initialize_def fresh_world_def)
  have n: "f_filename notes_file = ''notes_1_ab.txt''"
    by (simp add: notes_file_def)
  show ?thesis
    using h1 h2 addFile_persist_failure_keeps_record [OF h1 h2, of demo_config 0 notes_file]
    by (simp add: r i n)
qed

section \<open>C3: a sniffed type outside the allow-list\<close>

text \<open>
  C3 as stated: whenever the sniffed type is determinable and not allow-listed, the upload
  fails with the type-not-allowed error and no other, even if the declared type is
  allow-listed. \<open>validateFileMimeType\<close> compares the sniffed type with the declared one first:
  an executable declared as \<open>text/plain\<close> is answered with the mismatch error.
\<close>

theorem sniffed_type_mismatch_counterexample:
  "fromBuffer demo_platform (in_content renamed_exe) = Some ''application/x-msdownload''
   \<and> ''application/x-msdownload'' \<notin> set (allowedMimeTypes demo_config)
   \<and> in_mimetype renamed_exe \<in> set (allowedMimeTypes demo_config)
   \<and> fst (post_upload demo_config demo_platform 0 (Some renamed_exe) fresh_world)
       = MimeMismatch ''text/plain'' ''application/x-msdownload''"
  by code_simp

text \<open>
  C3 as amended: whenever the sniffed type is determinable and not allow-listed,
  \<open>validateFileMimeType\<close> rejects the upload: with the mismatch error when the sniffed type
  differs from the declared one (so always when the declared type is allow-listed), with
  the type-not-allowed error only when both are equal, and with the generic validation
  failure (500) when the rejected file cannot be unlinked.
\<close>

theorem validateFileMimeType_sniffed_not_allowed:
  assumes "fs_readFile (f_path f) w = Inr buf"
      and "fromBuffer plat buf = Some mime"
      and "mime \<notin> set (allowedMimeTypes cfg)"
  shows "fst (validateFileMimeType cfg plat (Some f) w)
         = Some (if f_path f \<in> set (locked w) then ValidateFailed
                 else if mime \<noteq> f_mimetype f then MimeMismatch (f_mimetype f) mime
                 else ActualTypeNotAllowed mime)
     \<and> (f_mimetype f \<in> set (allowedMimeTypes cfg) \<and> f_path f \<notin> set (locked w)
          \<longrightarrow> fst (validateFileMimeType cfg plat (Some f) w)
               = Some (MimeMismatch (f_mimetype f) mime))"
  using assms
  by (auto simp: validateFileMimeType_def validate_catch_def fs_readFile_def fs_unlink_def
                 exists_file_def Let_def split: option.splits)

theorem validateFileMimeType_sniffed_not_allowed_witness:
  "fs_readFile (f_path (stored_file demo_config renamed_exe))
       (stored demo_config renamed_exe fresh_world) = Inr ''MZA''
   \<and> fromBuffer demo_platform ''MZA'' = Some ''application/x-msdownload''
   \<and> ''application/x-msdownload'' \<notin> set (allowedMimeTypes demo_config)
   \<and> f_mimetype (stored_file demo_config renamed_exe) \<in> set (allowedMimeTypes demo_config)
   \<and> f_path (stored_file demo_config renamed_exe)
       \<notin> set (locked (stored demo_config renamed_exe fresh_world))
   \<and> fst (validateFileMimeType demo_config demo_platform
             (Some (stored_file demo_config renamed_exe))
             (stored demo_config renamed_exe fresh_world))
       = Some (MimeMismatch ''text/plain'' ''application/x-msdownload'')"
proof -
  have h1: "fs_readFile (f_path (stored_file demo_config renamed_exe))
              (stored demo_config renamed_exe fresh_world) = Inr ''MZA''"
    by code_simp
  have h2: "fromBuffer demo_platform ''MZA'' = Some ''application/x-msdownload''"
    by code_simp
  have h3: "''application/x-msdownload'' \<notin> set (allowedMimeTypes demo_config)"
    by code_simp
  have l: "f_path (stored_file demo_config renamed_exe)
             \<notin> set (locked (stored demo_config renamed_exe fresh_world))"
    by code_simp
  have m: "f_mimetype (stored_file demo_config renamed_exe) = ''text/plain''"
    by code_simp
  have a: "''text/plain'' \<in> set (allowedMimeTypes demo_config)"
    by code_simp
  show ?thesis
    using h1 h2 h3 a validateFileMimeType_sniffed_not_allowed [OF h1 h2 h3]
    by (simp add: l m)
qed

section \<open>C4: uploads without a detectable signature\<close>



section \<open>C5: the quota check\<close>




section \<open>C6: the order of effects in the expiry sweep\<close>

text \<open>
  C6: during an expiry sweep the deletion of the file on disk is attempted first for each
  expired record, an absent file counting as success, and only afterwards is the metadata
  record deleted; no record is removed before the unlink attempt for it. For an initialised
  store whose map satisfies its invariant, the effects of \<open>cleanupExpiredFiles\<close> are, for
  the expired records in order, exactly one \<open>fs.unlink\<close> of the record's path followed by
  the deletion of the record's id from the map, and nothing else; whether the unlink
  succeeded plays no part. Afterwards no expired record is left in the map, and with a
  writable snapshot file every one of them is counted.
\<close>

theorem cleanupExpiredFiles_unlinks_before_metadata:
  assumes "initialized w" and "store_ok w"
  shows "trace (snd (cleanupExpiredFiles now w))
           = trace w @ concat (map sweep_events (expired_at now w))
       \<and> (\<forall>r \<in> set (expired_at now w).
             map_of (metadata (snd (cleanupExpiredFiles now w))) (rec_id r) = None)
       \<and> (meta_writable w \<longrightarrow>
             fst (cleanupExpiredFiles now w) = Inr (length (expired_at now w)))"
proof -
  have c: "cleanupExpiredFiles now w =
             (Inr (fst (expired_loop (expired_at now w) 0 w)),
              snd (expired_loop (expired_at now w) 0 w))"
    using assms(1)
    by (simp add: cleanupExpiredFiles_def getExpiredFiles_def initialize_initialized
                  case_prod_beta expired_at_def)
  note e = store_ok_expired [OF assms(2), where P = "\<lambda>record. expiresAt record \<le> now",
                             folded expired_at_def]
  note l = expired_loop_result [OF assms(1) e, of 0]
  show ?thesis
    unfolding c using l by (simp add: map_of_foldl_delete)
qed

theorem cleanupExpiredFiles_unlinks_before_metadata_witness:
  "initialized expired_world \<and> store_ok expired_world
   \<and> \<not> exists_file expired_world ''uploads/old_0_aa.txt''
   \<and> trace (snd (cleanupExpiredFiles 2000 expired_world))
       = [Unlink ''uploads/notes_1_ab.txt'', MetaDelete ''notes_1_ab.txt'',
          Unlink ''uploads/old_0_aa.txt'', MetaDelete ''old_0_aa.txt'']
   \<and> fst (cleanupExpiredFiles 2000 expired_world) = Inr 2"
proof -
  have h1: "initialized expired_world"
    by code_simp
  have h2: "store_ok expired_world"
    by code_simp
  have a: "\<not> exists_file expired_world ''uploads/old_0_aa.txt''"
    by code_simp
  have t: "trace expired_world @ concat (map sweep_events (expired_at 2000 expired_world))
           = [Unlink ''uploads/notes_1_ab.txt'', MetaDelete ''notes_1_ab.txt'',
              Unlink ''uploads/old_0_aa.txt'', MetaDelete ''old_0_aa.txt'']"
    by code_simp
  have n: "length (expired_at 2000 expired_world) = 2"
    by code_simp
  have wr: "meta_writable expired_world"
    by code_simp
  show ?thesis
    using h1 h2 a wr cleanupExpiredFiles_unlinks_before_metadata [OF h1 h2, of 2000]
    by (simp add: t n)
qed

section \<open>C7: a failing phase of \<open>runCleanup\<close>\<close>

text \<open>
  With a store that can be initialised and a writable snapshot file no phase throws, and
  the run reports its three counts.
\<close>

lemma deleteFile_frame:
  assumes "initialized w"
  shows "initialized (snd (deleteFile k w)) \<and> meta_writable (snd (deleteFile k w)) = meta_writable w"
  using assms
  by (simp add: deleteFile_def initialize_initialized persist_def Let_def split: option.splits)

lemma expired_loop_frame:
  assumes "initialized w"
  shows "initialized (snd (expired_loop rs n w))
         \<and> meta_writable (snd (expired_loop rs n w)) = meta_writable w"
  using assms
proof (induction rs arbitrary: n w)
  case Nil
  then show ?case by simp
next
  case (Cons r rs)
  let ?w1 = "snd (fs_unlink (path r) w)"
  obtain res w2 where res: "deleteFile (rec_id r) ?w1 = (res, w2)"
    by (cases "deleteFile (rec_id r) ?w1")
  have i1: "initialized ?w1"
    using Cons.prems by (simp add: fs_unlink_frame)
  have f2: "initialized w2 \<and> meta_writable w2 = meta_writable w"
    using deleteFile_frame [OF i1, of "rec_id r"] res by (simp add: fs_unlink_frame)
  then have i2: "initialized w2" ..
  show ?case
    using Cons.IH [OF i2] f2 by (cases res) (simp_all add: Let_def res)
qed

lemma cleanupExpiredFiles_initialized:
  assumes "initialized w"
  shows "\<exists>n. fst (cleanupExpiredFiles now w) = Inr n"
    and "initialized (snd (cleanupExpiredFiles now w))"
    and "meta_writable (snd (cleanupExpiredFiles now w)) = meta_writable w"
  using assms expired_loop_frame [OF assms]
  by (simp_all add: cleanupExpiredFiles_def getExpiredFiles_def initialize_initialized case_prod_beta)

lemma cleanOrphanedMetadata_writable:
  assumes "initialized w" and "meta_writable w"
  shows "\<exists>n. fst (cleanOrphanedMetadata w) = Inr n"
  using assms
  by (simp add: cleanOrphanedMetadata_def initialize_initialized persist_def Let_def)

lemma runCleanup_writable:
  assumes "fst (initialize w) = Inr ()" and "meta_writable w"
  shows "\<exists>a b c. fst (runCleanup cfg now w) = CleanupOk a b c"
proof -
  obtain wi where i: "initialize w = (Inr (), wi)"
    using assms(1) by (cases "initialize w") simp
  have ii: "initialized wi"
    by (rule initialize_Inr [OF i])
  have wr: "meta_writable wi"
    using initialize_frame [OF i] assms(2) by simp
  obtain r1 w1 where c1: "cleanupExpiredFiles now wi = (r1, w1)"
    by (cases "cleanupExpiredFiles now wi")
  obtain a where a: "r1 = Inr a"
    using cleanupExpiredFiles_initialized(1) [OF ii, of now] c1 by auto
  have i1: "initialized w1" and wr1: "meta_writable w1"
    using cleanupExpiredFiles_initialized(2,3) [OF ii, of now] c1 wr by simp_all
  obtain r2 w2 where c2: "cleanOrphanedMetadata w1 = (r2, w2)"
    by (cases "cleanOrphanedMetadata w1")
  obtain b where b: "r2 = Inr b"
    using cleanOrphanedMetadata_writable [OF i1 wr1] c2 by auto
  show ?thesis
    by (simp add: runCleanup_def i c1 a cleanupOrphanedMetadata_def c2 b case_prod_beta)
qed

text \<open>
  C7 states that a failure in one phase of a sweep does not keep the remaining phases from
  being attempted and that the run reports the three counts. \<open>cleanupOrphanedMetadata\<close> has
  no \<open>try\<close> of its own: when the snapshot cannot be written after an orphaned record was
  dropped, the run ends with the failure result, the stray file in uploads/ is still there
  and no \<open>fs.unlink\<close> was attempted.
\<close>

theorem runCleanup_stops_after_metadata_failure:
  "expired_at 20 stale_world = []
   \<and> exists_file stale_world ''uploads/stray.bin''
   \<and> removable_orphan demo_config stale_world ''stray.bin''
   \<and> fst (runCleanup demo_config 20 stale_world) = CleanupFailed PersistError
   \<and> exists_file (snd (runCleanup demo_config 20 stale_world)) ''uploads/stray.bin''
   \<and> trace (snd (runCleanup demo_config 20 stale_world)) = [MetaDelete ''notes_1_ab.txt'']"
  by code_simp

section \<open>C8: the orphan-file phase\<close>

text \<open>
  C8 as stated: after the orphan-file phase every file name that was in the storage
  directory without a matching record has been deleted, and the returned count is the
  number of such files deleted. The loop skips \<open>.gitkeep\<close> and every name starting with a
  dot: a \<open>.gitkeep\<close> without a record is still there after the phase.
\<close>

theorem hidden_orphan_survives_counterexample:
  "exists_file littered_world ''uploads/.gitkeep''
   \<and> ''.gitkeep'' \<in> set (listing demo_config littered_world)
   \<and> ''.gitkeep'' \<notin> set (map filename (map snd (metadata littered_world)))
   \<and> exists_file (snd (cleanupOrphanedFiles demo_config littered_world)) ''uploads/.gitkeep''"
  by code_simp

text \<open>
  C8 as amended: after the orphan-file phase, run on an initialised store, every listed
  file name that does not start with a dot, is not the \<open>filename\<close> of a record and whose
  unlink is not refused has been deleted; every other file is still there (dot-files,
  files with a record, files whose unlink fails, and everything when the directory cannot
  be listed); and the returned count is the number of files deleted.
\<close>

theorem cleanupOrphanedFiles_removes_visible_orphans:
  assumes "initialized w"
  shows "fst (cleanupOrphanedFiles cfg w)
           = length (filter (removable_orphan cfg w) (listing cfg w))
     \<and> (\<forall>n \<in> set (listing cfg w). removable_orphan cfg w n \<longrightarrow>
           \<not> exists_file (snd (cleanupOrphanedFiles cfg w)) (path_join (uploadDir cfg) n))
     \<and> (\<forall>p. exists_file (snd (cleanupOrphanedFiles cfg w)) p
            \<longleftrightarrow> exists_file w p
                \<and> p \<notin> path_join (uploadDir cfg) `
                       {n \<in> set (listing cfg w). removable_orphan cfg w n})"
proof (cases "fs_readdir (uploadDir cfg) w")
  case (Inl e)
  then show ?thesis
    by (simp add: cleanupOrphanedFiles_def listing_def)
next
  case (Inr names)
  then have l: "listing cfg w = names"
    by (simp add: listing_def)
  have c: "cleanupOrphanedFiles cfg w
           = orphan_loop cfg (map filename (map snd (metadata w))) (listing cfg w) 0 w"
    using assms Inr
    by (simp add: cleanupOrphanedFiles_def getAllFiles_def initialize_initialized l)
  have e: "\<forall>n \<in> set (listing cfg w). exists_file w (path_join (uploadDir cfg) n)"
    by (simp add: listing_exists)
  have r: "removable_orphan cfg w
           = (\<lambda>n. \<not> skipped n \<and> n \<notin> set (map filename (map snd (metadata w)))
                  \<and> path_join (uploadDir cfg) n \<notin> set (locked w))"
    by (rule ext) (simp add: removable_orphan_def)
  note o = orphan_loop_result [OF listing_distinct e, of "map filename (map snd (metadata w))" 0]
  show ?thesis
    unfolding c r using o by auto
qed

theorem cleanupOrphanedFiles_removes_visible_orphans_witness:
  "initialized littered_world
   \<and> ''stray.bin'' \<in> set (listing demo_config littered_world)
   \<and> removable_orphan demo_config littered_world ''stray.bin''
   \<and> fst (cleanupOrphanedFiles demo_config littered_world) = 1
   \<and> \<not> exists_file (snd (cleanupOrphanedFiles demo_config littered_world)) ''uploads/stray.bin''"
proof -
  have h: "initialized littered_world"
    by code_simp
  have a: "''stray.bin'' \<in> set (listing demo_config littered_world)"
    by code_simp
  have b: "removable_orphan demo_config littered_world ''stray.bin''"
    by code_simp
  have n: "length (filter (removable_orphan demo_config littered_world)
                     (listing demo_config littered_world)) = 1"
    by code_simp
  have p: "path_join (uploadDir demo_config) ''stray.bin'' = ''uploads/stray.bin''"
    by code_simp
  show ?thesis
    using h a b cleanupOrphanedFiles_removes_visible_orphans [OF h, of demo_config]
    by (auto simp: n p)
qed

section \<open>C10: what \<open>sanitizeFilename\<close> lets through\<close>

text \<open>Whatever the sanitizer returns is non-empty and free of both separators.\<close>

lemma sanitizeFilename_no_separator:
  "sanitizeFilename s = Inr r \<Longrightarrow> r \<noteq> [] \<and> slash \<notin> set r \<and> backslash \<notin> set r"
  by (auto simp: sanitizeFilename_def remove_separators_def Let_def split: if_splits)

text \<open>
  C10 states that every string returned by \<open>sanitizeFilename\<close>, and hence every file id that
  \<open>validateFileId\<close> hands to a route handler, is non-empty and contains neither a slash, nor a
  backslash, nor the substring \<open>..\<close>. The pairs of dots are removed before the separators
  are, so deleting a backslash can bring two dots together: the three-character id
  dot, backslash, dot is passed on as \<open>..\<close>.
\<close>

theorem sanitizeFilename_returns_dotdot:
  "sanitizeFilename [dot, backslash, dot] = Inr ''..''
   \<and> has_dotdot ''..''
   \<and> validateFileId [dot, backslash, dot] = PassedOn ''..''"
  by code_simp

end
